theory Spec2Isabelle
  imports Main
begin

section \<open>BiliDownloadsExtractor: the catalogue of downloaded media\<close>

text \<open>
  The module \<^verbatim>\<open>BiliDownloadsExtractor.py\<close> walks the download directory of a video
  application and builds \<^verbatim>\<open>Media\<close> and \<^verbatim>\<open>Coll\<close> objects from it. This theory embeds
  the classes \<^verbatim>\<open>Media\<close> and \<^verbatim>\<open>Coll\<close> and the function \<^verbatim>\<open>scan\<close>. The three export
  functions only hand their arguments to an external transcoder and are not embedded.
\<close>

subsection \<open>Exceptions\<close>

text \<open>
  The module defines no exception class of its own and contains no \<^verbatim>\<open>try\<close> statement:
  every failure is a built-in exception raised by a library call, by a subscript or by
  an index, and it travels to the caller unchanged. A raise is the left injection of a
  sum type.
\<close>

datatype py_error =
    FileNotFoundError
  | NotADirectoryError
  | IsADirectoryError
  | PermissionError
  | UnicodeDecodeError
  | JSONDecodeError
  | KeyError string
  | TypeError
  | IndexError

subsection \<open>Decoded JSON values\<close>

text \<open>
  What \<^verbatim>\<open>json.loads\<close> returns: \<^verbatim>\<open>None\<close>, a \<^verbatim>\<open>bool\<close>, an \<^verbatim>\<open>int\<close>, a \<^verbatim>\<open>str\<close>, a \<^verbatim>\<open>list\<close>
  or a \<^verbatim>\<open>dict\<close> with string keys. A \<^verbatim>\<open>dict\<close> is the list of its items, whose keys are
  pairwise distinct. Floating-point numbers are left out of the model.
\<close>

datatype json =
    JNull
  | JBool bool
  | JInt int
  | JStr string
  | JArr "json list"
  | JObj "(string \<times> json) list"

text \<open>
  Python's \<^verbatim>\<open>==\<close> on such values: \<^verbatim>\<open>bool\<close> is a subclass of \<^verbatim>\<open>int\<close>, so \<^verbatim>\<open>True == 1\<close>;
  lists are compared element by element; dictionaries are equal when they have the same
  keys with equal values, in any order; values of unrelated types are unequal.
\<close>

fun py_eq :: "json \<Rightarrow> json \<Rightarrow> bool" where
  "py_eq JNull JNull = True"
| "py_eq (JBool a) (JBool b) = (a = b)"
| "py_eq (JBool a) (JInt j) = ((if a then 1 else 0) = j)"
| "py_eq (JInt i) (JBool b) = (i = (if b then 1 else 0))"
| "py_eq (JInt i) (JInt j) = (i = j)"
| "py_eq (JStr s) (JStr t) = (s = t)"
| "py_eq (JArr xs) (JArr ys) = list_all2 py_eq xs ys"
| "py_eq (JObj a) (JObj b) =
     (length a = length b \<and>
      list_all (\<lambda>kv. list_ex (\<lambda>kw. fst kv = fst kw \<and> py_eq (snd kv) (snd kw)) b) a)"
| "py_eq _ _ = False"

text \<open>
  The subscript \<^verbatim>\<open>obj[key]\<close> with a string key: a dictionary raises \<^verbatim>\<open>KeyError\<close> for an
  absent key, every other JSON value raises \<^verbatim>\<open>TypeError\<close> (a list or a string wants an
  integer index, the rest is not subscriptable).
\<close>

definition subscript :: "json \<Rightarrow> string \<Rightarrow> py_error + json" where
  "subscript obj key =
     (case obj of
        JObj items \<Rightarrow>
          (case map_of items key of
             None \<Rightarrow> Inl (KeyError key)
           | Some v \<Rightarrow> Inr v)
      | _ \<Rightarrow> Inl TypeError)"

subsection \<open>The library calls\<close>

text \<open>
  The module reaches the file system and the JSON decoder through four library
  functions that are not part of the repository. They are parameters of the model:
  \<^item> \<open>path_join\<close> is \<^verbatim>\<open>os.path.join\<close> on two arguments;
  \<^item> \<open>listdir\<close> is \<^verbatim>\<open>os.listdir\<close>, the names in a directory in enumeration order, or
    the exception it raises;
  \<^item> \<open>read_text\<close> is \<^verbatim>\<open>open(p, 'r', encoding='utf-8')\<close> followed by \<^verbatim>\<open>f.read()\<close>;
  \<^item> \<open>loads\<close> is \<^verbatim>\<open>json.loads\<close>.
  Nothing in the module writes to the file system, so the environment does not change
  during a call.
\<close>

record os_env =
  path_join :: "string \<Rightarrow> string \<Rightarrow> string"
  listdir :: "string \<Rightarrow> py_error + string list"
  read_text :: "string \<Rightarrow> py_error + string"
  loads :: "string \<Rightarrow> py_error + json"

subsection \<open>Class \<^verbatim>\<open>Media\<close>\<close>

text \<open>The attributes \<^verbatim>\<open>_path\<close>, \<^verbatim>\<open>_video\<close>, \<^verbatim>\<open>_audio\<close> and \<^verbatim>\<open>_entry\<close>.\<close>

record media =
  m_path :: string
  m_video :: string
  m_audio :: string
  m_entry :: json

text \<open>
  The Python literals \<^verbatim>\<open>"16\\video.m4s"\<close> and \<^verbatim>\<open>"16\\audio.m4s"\<close> hold one backslash
  each (character \<open>0x5C\<close>).
\<close>

definition video_rel :: string where
  "video_rel = ''16'' @ [CHR 0x5C] @ ''video.m4s''"

definition audio_rel :: string where
  "audio_rel = ''16'' @ [CHR 0x5C] @ ''audio.m4s''"

text \<open>
  \<^verbatim>\<open>Media.__init__\<close>: the two joins come first and cannot fail; then the descriptor is
  opened and read, then decoded.
\<close>

definition Media :: "os_env \<Rightarrow> string \<Rightarrow> py_error + media" where
  "Media env path =
     (let video = path_join env path video_rel;
          audio = path_join env path audio_rel
      in case read_text env (path_join env path ''entry.json'') of
           Inl e \<Rightarrow> Inl e
         | Inr text \<Rightarrow>
             (case loads env text of
                Inl e \<Rightarrow> Inl e
              | Inr entry \<Rightarrow>
                  Inr \<lparr>m_path = path, m_video = video, m_audio = audio, m_entry = entry\<rparr>))"

definition title :: "media \<Rightarrow> py_error + json" where
  "title m =
     (case subscript (m_entry m) ''page_data'' of
        Inl e \<Rightarrow> Inl e
      | Inr page_data \<Rightarrow> subscript page_data ''part'')"

definition video :: "media \<Rightarrow> string" where
  "video m = m_video m"

definition audio :: "media \<Rightarrow> string" where
  "audio m = m_audio m"

definition coll_name :: "media \<Rightarrow> py_error + json" where
  "coll_name m = subscript (m_entry m) ''title''"

definition cover_url :: "media \<Rightarrow> py_error + json" where
  "cover_url m = subscript (m_entry m) ''cover''"

text \<open>\<^verbatim>\<open>self.title != self.coll_name\<close>: the left operand is evaluated first.\<close>

definition is_in_any_coll :: "media \<Rightarrow> py_error + bool" where
  "is_in_any_coll m =
     (case title m of
        Inl e \<Rightarrow> Inl e
      | Inr t \<Rightarrow>
          (case coll_name m of
             Inl e \<Rightarrow> Inl e
           | Inr c \<Rightarrow> Inr (\<not> py_eq t c)))"

subsection \<open>Class \<^verbatim>\<open>Coll\<close>\<close>

text \<open>The attributes \<^verbatim>\<open>_path\<close>, \<^verbatim>\<open>_l\<close> and \<^verbatim>\<open>_name\<close>.\<close>

record coll =
  c_path :: string
  c_l :: "media list"
  c_name :: json

text \<open>
  The loop of \<^verbatim>\<open>Coll.__init__\<close> over the names still to visit, with the list built so
  far.
\<close>

fun coll_loop :: "os_env \<Rightarrow> string \<Rightarrow> string list \<Rightarrow> media list \<Rightarrow> py_error + media list" where
  "coll_loop env path [] l = Inr l"
| "coll_loop env path (m # ms) l =
     (let m_path = path_join env path m
      in case Media env m_path of
           Inl e \<Rightarrow> Inl e
         | Inr x \<Rightarrow> coll_loop env path ms (l @ [x]))"

text \<open>
  \<^verbatim>\<open>Coll.__init__\<close>: after the loop, \<^verbatim>\<open>self._l[0]\<close> raises \<^verbatim>\<open>IndexError\<close> on the empty
  list, and \<^verbatim>\<open>.coll_name\<close> may raise as the accessor does.
\<close>

definition Coll :: "os_env \<Rightarrow> string \<Rightarrow> py_error + coll" where
  "Coll env path =
     (case listdir env path of
        Inl e \<Rightarrow> Inl e
      | Inr names \<Rightarrow>
          (case coll_loop env path names [] of
             Inl e \<Rightarrow> Inl e
           | Inr l \<Rightarrow>
               (case l of
                  [] \<Rightarrow> Inl IndexError
                | first # _ \<Rightarrow>
                    (case coll_name first of
                       Inl e \<Rightarrow> Inl e
                     | Inr n \<Rightarrow> Inr \<lparr>c_path = path, c_l = l, c_name = n\<rparr>))))"

definition append_coll :: "coll \<Rightarrow> media \<Rightarrow> coll" where
  "append_coll c m = c\<lparr>c_l := c_l c @ [m]\<rparr>"

definition name :: "coll \<Rightarrow> json" where
  "name c = c_name c"

definition len :: "coll \<Rightarrow> nat" where
  "len c = length (c_l c)"

subsection \<open>Function \<^verbatim>\<open>scan\<close>\<close>

text \<open>An element of the result is a \<^verbatim>\<open>Media\<close> or a \<^verbatim>\<open>Coll\<close>.\<close>

datatype entry = Item media | Group coll

text \<open>The loop of \<^verbatim>\<open>scan\<close> over the names still to visit, with the result so far.\<close>

fun scan_loop :: "os_env \<Rightarrow> string \<Rightarrow> string list \<Rightarrow> entry list \<Rightarrow> py_error + entry list" where
  "scan_loop env path [] result = Inr result"
| "scan_loop env path (d # ds) result =
     (let d_path = path_join env path d
      in case listdir env d_path of
           Inl e \<Rightarrow> Inl e
         | Inr c \<Rightarrow>
             if length c = 1 then
               (case Media env (path_join env d_path (c ! 0)) of
                  Inl e \<Rightarrow> Inl e
                | Inr m \<Rightarrow> scan_loop env path ds (result @ [Item m]))
             else
               (case Coll env d_path of
                  Inl e \<Rightarrow> Inl e
                | Inr k \<Rightarrow> scan_loop env path ds (result @ [Group k])))"

definition scan :: "os_env \<Rightarrow> string \<Rightarrow> py_error + entry list" where
  "scan env path =
     (case listdir env path of
        Inl e \<Rightarrow> Inl e
      | Inr ds \<Rightarrow> scan_loop env path ds [])"

subsection \<open>The objects of a collection in a store\<close>

text \<open>
  The records above are values. What \<^verbatim>\<open>Coll.content\<close> promises is about objects that
  can be changed in place, so for it the list \<^verbatim>\<open>_l\<close> and the \<^verbatim>\<open>Media\<close> objects live in
  a store: \<open>list_at\<close> holds the list objects (each a sequence of references to \<^verbatim>\<open>Media\<close>
  objects), \<open>media_at\<close> holds the \<^verbatim>\<open>Media\<close> objects, and every address below \<open>fresh\<close>
  is in use. A \<^verbatim>\<open>Media\<close> object and the descriptor dictionary it owns are one cell:
  \<^verbatim>\<open>Media.__init__\<close> creates the dictionary itself and no method hands it out.
\<close>

type_synonym addr = nat

record store =
  list_at :: "addr \<Rightarrow> addr list"
  media_at :: "addr \<Rightarrow> media"
  fresh :: addr

text \<open>A \<^verbatim>\<open>Coll\<close> object: \<^verbatim>\<open>_l\<close> is a reference to its list object.\<close>

record coll_obj =
  o_path :: string
  o_l :: addr
  o_name :: json

text \<open>
  \<^verbatim>\<open>copy.deepcopy\<close> on the elements of a list, with its memo (the objects already copied
  in this call, each with its copy): an element found in the memo is answered with that
  copy; any other gets a new object with a copy of its state, which is entered in the
  memo. The strings of a \<^verbatim>\<open>Media\<close> are immutable and the descriptor is copied with the
  object. No \<^verbatim>\<open>__init__\<close> runs, so no file is read.
\<close>

fun deepcopy_items ::
  "store \<Rightarrow> (addr \<times> addr) list \<Rightarrow> addr list \<Rightarrow> addr list \<times> (addr \<times> addr) list \<times> store" where
  "deepcopy_items s memo [] = ([], memo, s)"
| "deepcopy_items s memo (a # as) =
     (case map_of memo a of
        Some y \<Rightarrow>
          (case deepcopy_items s memo as of (ys, memo', s') \<Rightarrow> (y # ys, memo', s'))
      | None \<Rightarrow>
          (let y = fresh s;
               s1 = s\<lparr>media_at := (media_at s)(y := media_at s a), fresh := Suc y\<rparr>
           in case deepcopy_items s1 ((a, y) # memo) as of
                (ys, memo', s') \<Rightarrow> (y # ys, memo', s')))"

text \<open>
  \<^verbatim>\<open>Coll.content\<close> is \<^verbatim>\<open>deepcopy(self._l)\<close>: a new list object is created first, then
  filled with the copies of the elements. The result is the reference to the new list
  and the store after the call.
\<close>

definition content :: "store \<Rightarrow> coll_obj \<Rightarrow> addr \<times> store" where
  "content s c =
     (let y = fresh s;
          s0 = s\<lparr>list_at := (list_at s)(y := []), fresh := Suc y\<rparr>
      in case deepcopy_items s0 [] (list_at s (o_l c)) of
           (ys, memo, s1) \<Rightarrow> (y, s1\<lparr>list_at := (list_at s1)(y := ys)\<rparr>))"

text \<open>
  \<^verbatim>\<open>Coll.__iter__\<close> iterates over \<^verbatim>\<open>self._l\<close> itself: it yields the stored objects, in
  stored order.
\<close>

definition iter_coll :: "store \<Rightarrow> coll_obj \<Rightarrow> addr list" where
  "iter_coll s c = list_at s (o_l c)"

text \<open>
  What a caller can do to objects in place: give a list object new contents (append,
  delete, assign an element), give a \<^verbatim>\<open>Media\<close> object a new state (assign an attribute,
  change its descriptor), or create a new \<^verbatim>\<open>Media\<close> object.
\<close>

datatype mutation =
    ListAssign addr "addr list"
  | MediaAssign addr media
  | MediaNew media

fun mutate1 :: "store \<Rightarrow> mutation \<Rightarrow> store" where
  "mutate1 s (ListAssign a xs) = s\<lparr>list_at := (list_at s)(a := xs)\<rparr>"
| "mutate1 s (MediaAssign a m) = s\<lparr>media_at := (media_at s)(a := m)\<rparr>"
| "mutate1 s (MediaNew m) = s\<lparr>media_at := (media_at s)(fresh s := m), fresh := Suc (fresh s)\<rparr>"

fun mutate :: "store \<Rightarrow> mutation list \<Rightarrow> store" where
  "mutate s [] = s"
| "mutate s (mu # mus) = mutate (mutate1 s mu) mus"

text \<open>A mutation that only touches objects created at address \<open>b\<close> or later.\<close>

fun created_since :: "addr \<Rightarrow> mutation \<Rightarrow> bool" where
  "created_since b (ListAssign a xs) = (b \<le> a)"
| "created_since b (MediaAssign a m) = (b \<le> a)"
| "created_since b (MediaNew m) = True"

text \<open>Two stores that hold the same objects below address \<open>b\<close>.\<close>

definition agree_below :: "addr \<Rightarrow> store \<Rightarrow> store \<Rightarrow> bool" where
  "agree_below b s s' \<longleftrightarrow>
     b \<le> fresh s' \<and> (\<forall>a<b. list_at s' a = list_at s a \<and> media_at s' a = media_at s a)"

text \<open>
  The invariant of the memo (every copy is a new object and holds the state of its
  original) and what a run of \<open>deepcopy_items\<close> achieves.
\<close>

definition memo_ok :: "addr \<Rightarrow> store \<Rightarrow> (addr \<times> addr) list \<Rightarrow> bool" where
  "memo_ok b s memo \<longleftrightarrow>
     (\<forall>(a, y) \<in> set memo. a < b \<and> b \<le> y \<and> y < fresh s \<and> media_at s y = media_at s a)"

definition copied :: "addr \<Rightarrow> store \<Rightarrow> addr list \<Rightarrow> store \<Rightarrow> addr list \<Rightarrow> bool" where
  "copied b s as s' ys \<longleftrightarrow>
     fresh s \<le> fresh s' \<and> list_at s' = list_at s \<and>
     (\<forall>a<fresh s. media_at s' a = media_at s a) \<and>
     length ys = length as \<and>
     (\<forall>i<length as. b \<le> ys ! i \<and> ys ! i < fresh s' \<and> media_at s' (ys ! i) = media_at s (as ! i))"

subsection \<open>The classification as the specification words it\<close>

text \<open>
  The specification describes what \<^verbatim>\<open>scan\<close> does with one child of the root: list the
  child directory; if the listing has exactly one entry, the child is a single item built
  from that one grandchild folder; otherwise it is a collection built from the child
  directory itself. \<open>classify\<close> follows these words; the theorems below compare it with
  the loop of the source.
\<close>

definition classify :: "os_env \<Rightarrow> string \<Rightarrow> string \<Rightarrow> py_error + entry" where
  "classify env rootPath child =
     (let childPath = path_join env rootPath child
      in case listdir env childPath of
           Inl e \<Rightarrow> Inl e
         | Inr inner \<Rightarrow>
             (case inner of
                [grandchild] \<Rightarrow>
                  (case Media env (path_join env childPath grandchild) of
                     Inl e \<Rightarrow> Inl e
                   | Inr m \<Rightarrow> Inr (Item m))
              | _ \<Rightarrow>
                  (case Coll env childPath of
                     Inl e \<Rightarrow> Inl e
                   | Inr k \<Rightarrow> Inr (Group k))))"

subsection \<open>An example download directory\<close>

text \<open>
  A concrete environment for evaluating the definitions. Root \<open>R\<close> holds the group \<open>G1\<close>
  with the single item \<open>a1\<close> and the group \<open>G2\<close> with the items \<open>b1\<close> and \<open>b2\<close>. Root \<open>Q\<close>
  holds two broken groups: the descriptor of \<open>H1/x1\<close> is not JSON, the descriptor of
  \<open>H2/y1\<close> is missing. Root \<open>P\<close> holds a group whose second item has no descriptor.
  \<open>E\<close> is an empty directory, the descriptor in \<open>N\<close> is the empty JSON object, and
  the descriptor in \<open>N2\<close> has a \<^verbatim>\<open>page_data\<close> object without \<^verbatim>\<open>part\<close>.
\<close>

definition ex_dirs :: "(string \<times> string list) list" where
  "ex_dirs =
     [(''R'', [''G1'', ''G2'']),
      (''R/G1'', [''a1'']),
      (''R/G2'', [''b1'', ''b2'']),
      (''Q'', [''H1'', ''H2'']),
      (''Q/H1'', [''x1'']),
      (''Q/H2'', [''y1'']),
      (''P'', [''K1'']),
      (''P/K1'', [''z1'', ''z2'']),
      (''E'', [])]"

definition ex_files :: "(string \<times> string) list" where
  "ex_files =
     [(''R/G1/a1/entry.json'', ''doc_a1''),
      (''R/G2/b1/entry.json'', ''doc_b1''),
      (''R/G2/b2/entry.json'', ''doc_b2''),
      (''Q/H1/x1/entry.json'', ''not json''),
      (''P/K1/z1/entry.json'', ''doc_b1''),
      (''N/entry.json'', ''{}''),
      (''N2/entry.json'', ''doc_n2'')]"

definition descriptor :: "string \<Rightarrow> string \<Rightarrow> json" where
  "descriptor part ct =
     JObj [(''title'', JStr ct), (''cover'', JStr ''http://cover''),
           (''page_data'', JObj [(''part'', JStr part)])]"

text \<open>The decoder of the example, as the table of its results on the texts above.\<close>

definition ex_docs :: "(string \<times> json) list" where
  "ex_docs =
     [(''doc_a1'', descriptor ''EP1'' ''EP1''),
      (''doc_b1'', descriptor ''EP1'' ''Show''),
      (''doc_b2'', descriptor ''EP2'' ''Show''),
      (''{}'', JObj []),
      (''doc_n2'', JObj [(''page_data'', JObj [])])]"

definition ex_env :: os_env where
  "ex_env =
     \<lparr>path_join = (\<lambda>a b. a @ ''/'' @ b),
      listdir = (\<lambda>p. case map_of ex_dirs p of None \<Rightarrow> Inl FileNotFoundError | Some ns \<Rightarrow> Inr ns),
      read_text = (\<lambda>p. case map_of ex_files p of None \<Rightarrow> Inl FileNotFoundError | Some t \<Rightarrow> Inr t),
      loads = (\<lambda>t. case map_of ex_docs t of None \<Rightarrow> Inl JSONDecodeError | Some j \<Rightarrow> Inr j)\<rparr>"

definition ex_media :: "string \<Rightarrow> string \<Rightarrow> string \<Rightarrow> media" where
  "ex_media p part ct =
     \<lparr>m_path = p, m_video = p @ ''/'' @ video_rel, m_audio = p @ ''/'' @ audio_rel,
      m_entry = descriptor part ct\<rparr>"

text \<open>
  An environment in which nothing but the descriptor of \<open>R/G1/a1\<close> can be read and no
  directory can be listed.
\<close>

definition ex_env_bare :: os_env where
  "ex_env_bare =
     \<lparr>path_join = (\<lambda>a b. a @ ''/'' @ b),
      listdir = (\<lambda>p. Inl PermissionError),
      read_text = (\<lambda>p. if p = ''R/G1/a1/entry.json'' then Inr ''doc_a1'' else Inl FileNotFoundError),
      loads = loads ex_env\<rparr>"

text \<open>
  A store with the collection of group \<open>G2\<close>: its list object at address 0, its two
  \<^verbatim>\<open>Media\<close> objects at 1 and 2. The mutations empty the first snapshot but for one item,
  overwrite a copied item, and create one more object.
\<close>

definition ex_store :: store where
  "ex_store =
     \<lparr>list_at = (\<lambda>a. [])(0 := [1, 2]),
      media_at = (\<lambda>a. ex_media ''R/G2/b1'' ''EP1'' ''Show'')
                   (2 := ex_media ''R/G2/b2'' ''EP2'' ''Show''),
      fresh = 3\<rparr>"

definition ex_coll_obj :: coll_obj where
  "ex_coll_obj = \<lparr>o_path = ''R/G2'', o_l = 0, o_name = JStr ''Show''\<rparr>"

definition ex_mus :: "mutation list" where
  "ex_mus =
     [ListAssign 3 [5],
      MediaAssign 4 (ex_media ''elsewhere'' ''changed'' ''changed''),
      MediaNew (ex_media ''new'' ''new'' ''new'')]"

section \<open>Properties\<close>

subsection \<open>The example, evaluated\<close>

lemma ex_join: "path_join ex_env a b = a @ ''/'' @ b"
  by (simp add: ex_env_def)

lemma ex_listdir:
  "listdir ex_env ''R'' = Inr [''G1'', ''G2'']"
  "listdir ex_env ''R/G1'' = Inr [''a1'']"
  "listdir ex_env ''R/G2'' = Inr [''b1'', ''b2'']"
  "listdir ex_env ''Q'' = Inr [''H1'', ''H2'']"
  "listdir ex_env ''Q/H1'' = Inr [''x1'']"
  "listdir ex_env ''Q/H2'' = Inr [''y1'']"
  "listdir ex_env ''P'' = Inr [''K1'']"
  "listdir ex_env ''P/K1'' = Inr [''z1'', ''z2'']"
  "listdir ex_env ''E'' = Inr []"
  "listdir ex_env ''missing'' = Inl FileNotFoundError"
  by (simp_all add: ex_env_def ex_dirs_def)

lemma ex_read:
  "read_text ex_env ''R/G1/a1/entry.json'' = Inr ''doc_a1''"
  "read_text ex_env ''R/G2/b1/entry.json'' = Inr ''doc_b1''"
  "read_text ex_env ''Q/H1/x1/entry.json'' = Inr ''not json''"
  "read_text ex_env ''Q/H2/y1/entry.json'' = Inl FileNotFoundError"
  "read_text ex_env ''P/K1/z2/entry.json'' = Inl FileNotFoundError"
  "read_text ex_env ''N/entry.json'' = Inr ''{}''"
  "read_text ex_env ''N2/entry.json'' = Inr ''doc_n2''"
  by (simp_all add: ex_env_def ex_files_def)

lemma ex_read_join:
  "read_text ex_env (path_join ex_env ''R/G1/a1'' ''entry.json'') = Inr ''doc_a1''"
  "read_text ex_env (path_join ex_env ''R/G2/b1'' ''entry.json'') = Inr ''doc_b1''"
  "read_text ex_env (path_join ex_env ''Q/H1/x1'' ''entry.json'') = Inr ''not json''"
  "read_text ex_env (path_join ex_env ''Q/H2/y1'' ''entry.json'') = Inl FileNotFoundError"
  "read_text ex_env (path_join ex_env ''P/K1/z2'' ''entry.json'') = Inl FileNotFoundError"
  "read_text ex_env (path_join ex_env ''N'' ''entry.json'') = Inr ''{}''"
  "read_text ex_env (path_join ex_env ''N2'' ''entry.json'') = Inr ''doc_n2''"
  using ex_read by (simp_all add: ex_join)

lemma ex_loads:
  "loads ex_env ''doc_a1'' = Inr (descriptor ''EP1'' ''EP1'')"
  "loads ex_env ''doc_b1'' = Inr (descriptor ''EP1'' ''Show'')"
  "loads ex_env ''not json'' = Inl JSONDecodeError"
  "loads ex_env ''{}'' = Inr (JObj [])"
  "loads ex_env ''doc_n2'' = Inr (JObj [(''page_data'', JObj [])])"
  by (simp_all add: ex_env_def ex_docs_def)

lemma ex_Media:
  "Media ex_env ''R/G1/a1'' = Inr (ex_media ''R/G1/a1'' ''EP1'' ''EP1'')"
  "Media ex_env ''R/G2/b1'' = Inr (ex_media ''R/G2/b1'' ''EP1'' ''Show'')"
  "Media ex_env ''R/G2/b2'' = Inr (ex_media ''R/G2/b2'' ''EP2'' ''Show'')"
  "Media ex_env ''P/K1/z1'' = Inr (ex_media ''P/K1/z1'' ''EP1'' ''Show'')"
  "Media ex_env ''P/K1/z2'' = Inl FileNotFoundError"
  "Media ex_env ''Q/H1/x1'' = Inl JSONDecodeError"
  "Media ex_env ''Q/H2/y1'' = Inl FileNotFoundError"
  by (simp_all add: Media_def ex_env_def ex_files_def ex_docs_def ex_media_def)

lemma ex_coll_name: "coll_name (ex_media p part ct) = Inr (JStr ct)"
  by (simp add: coll_name_def subscript_def ex_media_def descriptor_def)

lemma ex_title: "title (ex_media p part ct) = Inr (JStr part)"
  by (simp add: title_def subscript_def ex_media_def descriptor_def)

lemma ex_Coll:
  "Coll ex_env ''R/G2'' =
     Inr \<lparr>c_path = ''R/G2'',
          c_l = [ex_media ''R/G2/b1'' ''EP1'' ''Show'', ex_media ''R/G2/b2'' ''EP2'' ''Show''],
          c_name = JStr ''Show''\<rparr>"
  "Coll ex_env ''P/K1'' = Inl FileNotFoundError"
  "Coll ex_env ''E'' = Inl IndexError"
  using ex_Media by (simp_all add: Coll_def ex_listdir ex_join ex_coll_name)

lemma ex_scan:
  "scan ex_env ''R'' =
     Inr [Item (ex_media ''R/G1/a1'' ''EP1'' ''EP1''),
          Group \<lparr>c_path = ''R/G2'',
                 c_l = [ex_media ''R/G2/b1'' ''EP1'' ''Show'', ex_media ''R/G2/b2'' ''EP2'' ''Show''],
                 c_name = JStr ''Show''\<rparr>]"
  "scan ex_env ''Q'' = Inl JSONDecodeError"
  "scan ex_env ''P'' = Inl FileNotFoundError"
  "scan ex_env ''missing'' = Inl FileNotFoundError"
  using ex_Media ex_Coll by (simp_all add: scan_def ex_listdir ex_join)

subsection \<open>The two loops\<close>

lemma loop_Inr_iff:
  assumes nil: "\<And>l. L [] l = Inr l"
    and cons: "\<And>x xs l. L (x # xs) l = (case f x of Inl e \<Rightarrow> Inl e | Inr y \<Rightarrow> L xs (l @ [y]))"
  shows "L xs l = Inr r \<longleftrightarrow> (\<exists>ys. list_all2 (\<lambda>x y. f x = Inr y) xs ys \<and> r = l @ ys)"
proof (induction xs arbitrary: l)
  case Nil
  show ?case by (auto simp: nil)
next
  case (Cons x xs)
  show ?case
  proof (cases "f x")
    case (Inl e)
    then show ?thesis by (simp add: cons list_all2_Cons1)
  next
    case (Inr y)
    then show ?thesis by (auto simp: cons Cons.IH list_all2_Cons1)
  qed
qed

lemma loop_Inl_iff:
  assumes nil: "\<And>l. L [] l = Inr l"
    and cons: "\<And>x xs l. L (x # xs) l = (case f x of Inl e \<Rightarrow> Inl e | Inr y \<Rightarrow> L xs (l @ [y]))"
  shows "L xs l = Inl e \<longleftrightarrow>
           (\<exists>k<length xs. f (xs ! k) = Inl e \<and> (\<forall>j<k. \<exists>y. f (xs ! j) = Inr y))"
proof (induction xs arbitrary: l)
  case Nil
  show ?case by (simp add: nil)
next
  case (Cons x xs)
  let ?R = "\<exists>k<length (x # xs). f ((x # xs) ! k) = Inl e \<and> (\<forall>j<k. \<exists>y. f ((x # xs) ! j) = Inr y)"
  show ?case
  proof (cases "f x")
    case (Inl e')
    show ?thesis
    proof
      assume "L (x # xs) l = Inl e"
      with Inl have "e' = e" by (simp add: cons)
      with Inl show ?R by (intro exI[of _ 0]) simp
    next
      assume ?R
      then obtain k where k: "k < length (x # xs)" "f ((x # xs) ! k) = Inl e"
        "\<forall>j<k. \<exists>y. f ((x # xs) ! j) = Inr y" by blast
      have "k = 0"
      proof (rule ccontr)
        assume "k \<noteq> 0"
        then have "0 < k" by simp
        with k(3) Inl show False by fastforce
      qed
      with k(2) Inl show "L (x # xs) l = Inl e" by (simp add: cons)
    qed
  next
    case (Inr y)
    let ?M = "\<exists>k<length xs. f (xs ! k) = Inl e \<and> (\<forall>j<k. \<exists>y. f (xs ! j) = Inr y)"
    have "L (x # xs) l = Inl e \<longleftrightarrow> L xs (l @ [y]) = Inl e"
      using Inr by (simp add: cons)
    also have "\<dots> \<longleftrightarrow> ?M"
      by (rule Cons.IH)
    also have "?M \<longleftrightarrow> ?R"
    proof
      assume ?M
      then obtain k where k: "k < length xs" "f (xs ! k) = Inl e"
        "\<forall>j<k. \<exists>y. f (xs ! j) = Inr y" by blast
      have "\<forall>j<Suc k. \<exists>y. f ((x # xs) ! j) = Inr y"
        using k(3) Inr by (auto simp: nth_Cons split: nat.splits)
      with k(1,2) show ?R by (intro exI[of _ "Suc k"]) simp
    next
      assume ?R
      then obtain k where k: "k < length (x # xs)" "f ((x # xs) ! k) = Inl e"
        "\<forall>j<k. \<exists>y. f ((x # xs) ! j) = Inr y" by blast
      from k(2) Inr obtain k' where k': "k = Suc k'" by (cases k) auto
      have "\<forall>j<k'. \<exists>y. f (xs ! j) = Inr y"
      proof (intro allI impI)
        fix j assume "j < k'"
        then have "Suc j < k" using k' by simp
        with k(3) show "\<exists>y. f (xs ! j) = Inr y" by fastforce
      qed
      with k(1,2) k' show ?M by (intro exI[of _ k']) simp
    qed
    finally show ?thesis .
  qed
qed

lemma coll_loop_Cons:
  "coll_loop env path (m # ms) l =
     (case Media env (path_join env path m) of
        Inl e \<Rightarrow> Inl e
      | Inr x \<Rightarrow> coll_loop env path ms (l @ [x]))"
  by simp

lemma scan_loop_Cons:
  "scan_loop env path (d # ds) result =
     (case classify env path d of
        Inl e \<Rightarrow> Inl e
      | Inr x \<Rightarrow> scan_loop env path ds (result @ [x]))"
proof (cases "listdir env (path_join env path d)")
  case (Inl e)
  then show ?thesis by (simp add: classify_def)
next
  case (Inr c)
  show ?thesis
  proof (cases "length c = 1")
    case True
    then obtain g where "c = [g]" by (cases c) auto
    with Inr show ?thesis by (simp add: classify_def split: sum.splits)
  next
    case False
    then have "(case c of [g] \<Rightarrow> A g | _ \<Rightarrow> B) = B" for A and B :: "py_error + entry"
      by (cases c) (auto split: list.splits)
    with Inr False show ?thesis by (simp add: classify_def split: sum.splits)
  qed
qed

lemma coll_loop_Inr_iff:
  "coll_loop env path ms l = Inr r \<longleftrightarrow>
     (\<exists>xs. list_all2 (\<lambda>m x. Media env (path_join env path m) = Inr x) ms xs \<and> r = l @ xs)"
  by (rule loop_Inr_iff) (simp_all only: coll_loop.simps(1) coll_loop_Cons)

lemma coll_loop_Inl_iff:
  "coll_loop env path ms l = Inl e \<longleftrightarrow>
     (\<exists>k<length ms. Media env (path_join env path (ms ! k)) = Inl e \<and>
        (\<forall>j<k. \<exists>x. Media env (path_join env path (ms ! j)) = Inr x))"
  by (rule loop_Inl_iff) (simp_all only: coll_loop.simps(1) coll_loop_Cons)

lemma scan_loop_Inr_iff:
  "scan_loop env path ds acc = Inr r \<longleftrightarrow>
     (\<exists>es. list_all2 (\<lambda>d e. classify env path d = Inr e) ds es \<and> r = acc @ es)"
  by (rule loop_Inr_iff) (simp_all only: scan_loop.simps(1) scan_loop_Cons)

lemma scan_loop_Inl_iff:
  "scan_loop env path ds acc = Inl e \<longleftrightarrow>
     (\<exists>i<length ds. classify env path (ds ! i) = Inl e \<and>
        (\<forall>j<i. \<exists>x. classify env path (ds ! j) = Inr x))"
  by (rule loop_Inl_iff) (simp_all only: scan_loop.simps(1) scan_loop_Cons)

subsection \<open>Helper lemmas on construction, classification and the snapshot\<close>

lemma Media_read_fails:
  "read_text env (path_join env path ''entry.json'') = Inl e \<Longrightarrow> Media env path = Inl e"
  by (simp add: Media_def)

lemma Media_decoded:
  "read_text env (path_join env path ''entry.json'') = Inr txt \<Longrightarrow>
   Media env path =
     (case loads env txt of
        Inl e \<Rightarrow> Inl e
      | Inr entry \<Rightarrow>
          Inr \<lparr>m_path = path, m_video = path_join env path video_rel,
               m_audio = path_join env path audio_rel, m_entry = entry\<rparr>)"
  by (simp add: Media_def)

lemma classify_single:
  "listdir env (path_join env root d) = Inr [g] \<Longrightarrow>
   classify env root d =
     (case Media env (path_join env (path_join env root d) g) of
        Inl e \<Rightarrow> Inl e | Inr m \<Rightarrow> Inr (Item m))"
  by (simp add: classify_def)

lemma classify_group:
  "listdir env (path_join env root d) = Inr names \<Longrightarrow> length names \<noteq> 1 \<Longrightarrow>
   classify env root d =
     (case Coll env (path_join env root d) of
        Inl e \<Rightarrow> Inl e | Inr k \<Rightarrow> Inr (Group k))"
  by (cases names rule: list.exhaust; cases "tl names") (auto simp: classify_def)

lemma Coll_well_formed:
  assumes names: "listdir env g = Inr names"
    and nonempty: "names \<noteq> []"
    and items: "\<forall>n \<in> set names. Media env (path_join env g n) = Inr (item n)"
    and first: "coll_name (item (names ! 0)) = Inr ct"
  shows "Coll env g = Inr \<lparr>c_path = g, c_l = map item names, c_name = ct\<rparr>"
proof -
  have "list_all2 (\<lambda>n x. Media env (path_join env g n) = Inr x) names (map item names)"
    using items by (simp add: list_all2_conv_all_nth)
  then have loop: "coll_loop env g names [] = Inr (map item names)"
    by (simp add: coll_loop_Inr_iff)
  from nonempty obtain n ns where ns: "names = n # ns" by (cases names) auto
  with first have "coll_name (item n) = Inr ct" by simp
  with names loop ns show ?thesis by (simp add: Coll_def)
qed

lemma coll_loop_fails:
  assumes "k < length names" and "Media env (path_join env g (names ! k)) = Inl e"
  shows "\<exists>e'. coll_loop env g names l = Inl e'"
proof (cases "coll_loop env g names l")
  case (Inl e')
  then show ?thesis by blast
next
  case (Inr r)
  then obtain xs where "list_all2 (\<lambda>m x. Media env (path_join env g m) = Inr x) names xs"
    by (auto simp: coll_loop_Inr_iff)
  with assms(1) have "Media env (path_join env g (names ! k)) = Inr (xs ! k)"
    by (simp add: list_all2_conv_all_nth)
  with assms(2) show ?thesis by simp
qed

lemma classify_item_fails:
  assumes names: "listdir env (path_join env root d) = Inr names"
    and k: "k < length names"
    and fails: "Media env (path_join env (path_join env root d) (names ! k)) = Inl e"
  shows "\<exists>e'. classify env root d = Inl e'"
    and "\<forall>j<k. \<exists>m. Media env (path_join env (path_join env root d) (names ! j)) = Inr m
           \<Longrightarrow> classify env root d = Inl e"
proof -
  let ?g = "path_join env root d"
  show "\<exists>e'. classify env root d = Inl e'"
  proof (cases "length names = 1")
    case True
    then obtain n where n: "names = [n]" by (cases names) auto
    with k fails show ?thesis by (simp add: classify_single [OF names [unfolded n]])
  next
    case False
    from coll_loop_fails [OF k fails] obtain e' where "coll_loop env ?g names [] = Inl e'"
      by blast
    with names have "Coll env ?g = Inl e'" by (simp add: Coll_def)
    then show ?thesis by (simp add: classify_group [OF names False])
  qed
  assume earlier: "\<forall>j<k. \<exists>m. Media env (path_join env ?g (names ! j)) = Inr m"
  show "classify env root d = Inl e"
  proof (cases "length names = 1")
    case True
    then obtain n where n: "names = [n]" by (cases names) auto
    with k fails show ?thesis by (simp add: classify_single [OF names [unfolded n]])
  next
    case False
    have "coll_loop env ?g names [] = Inl e"
      using k fails earlier by (auto simp: coll_loop_Inl_iff)
    with names have "Coll env ?g = Inl e" by (simp add: Coll_def)
    then show ?thesis by (simp add: classify_group [OF names False])
  qed
qed

lemma scan_child_fails:
  assumes children: "listdir env root = Inr children"
    and i: "i < length children"
    and fails: "classify env root (children ! i) = Inl e"
  shows "\<exists>e'. scan env root = Inl e'"
proof (cases "scan env root")
  case (Inl e')
  then show ?thesis by blast
next
  case (Inr r)
  with children have "list_all2 (\<lambda>child x. classify env root child = Inr x) children r"
    by (simp add: scan_def scan_loop_Inr_iff)
  with i have "classify env root (children ! i) = Inr (r ! i)"
    by (simp add: list_all2_conv_all_nth)
  with fails show ?thesis by simp
qed

lemma deepcopy_items_copied:
  assumes "deepcopy_items s memo as = (ys, memo', s')"
    and "\<forall>a \<in> set as. a < b"
    and "b \<le> fresh s"
    and "memo_ok b s memo"
  shows "copied b s as s' ys"
  using assms
proof (induction as arbitrary: s memo ys memo' s')
  case Nil
  then show ?case by (simp add: copied_def)
next
  case (Cons a as)
  from Cons.prems(2) have a: "a < b" and as: "\<forall>x \<in> set as. x < b" by simp_all
  show ?case
  proof (cases "map_of memo a")
    case (Some y)
    obtain ys0 m0 s0 where rec: "deepcopy_items s memo as = (ys0, m0, s0)"
      by (cases "deepcopy_items s memo as") auto
    with Some Cons.prems(1) have res: "ys = y # ys0" "s' = s0" by simp_all
    have ih: "copied b s as s0 ys0"
      using rec as Cons.prems(3,4) by (rule Cons.IH)
    from Some have "(a, y) \<in> set memo" by (rule map_of_SomeD)
    with Cons.prems(4) have y: "b \<le> y" "y < fresh s" "media_at s y = media_at s a"
      by (auto simp: memo_ok_def)
    have "b \<le> (y # ys0) ! i \<and> (y # ys0) ! i < fresh s0 \<and>
          media_at s0 ((y # ys0) ! i) = media_at s ((a # as) ! i)"
      if "i < length (a # as)" for i
    proof (cases i)
      case 0
      with y ih show ?thesis by (simp add: copied_def)
    next
      case (Suc j)
      with that ih show ?thesis by (simp add: copied_def)
    qed
    with ih res show ?thesis by (simp add: copied_def)
  next
    case None
    define y where "y = fresh s"
    define s1 where "s1 = s\<lparr>media_at := (media_at s)(y := media_at s a), fresh := Suc y\<rparr>"
    obtain ys0 m0 s0 where rec: "deepcopy_items s1 ((a, y) # memo) as = (ys0, m0, s0)"
      by (cases "deepcopy_items s1 ((a, y) # memo) as") auto
    with None Cons.prems(1) have res: "ys = y # ys0" "s' = s0"
      by (simp_all add: y_def s1_def Let_def)
    have b_y: "b \<le> y" using Cons.prems(3) by (simp add: y_def)
    have s1: "fresh s1 = Suc y" "list_at s1 = list_at s" "media_at s1 y = media_at s a"
      "\<And>x. x \<noteq> y \<Longrightarrow> media_at s1 x = media_at s x"
      by (simp_all add: s1_def)
    have below: "media_at s1 x = media_at s x" if "x < b" for x
      using that b_y by (simp add: s1(4))
    have memo1: "memo_ok b s1 ((a, y) # memo)"
      unfolding memo_ok_def
    proof (intro ballI, clarify)
      fix a' y' assume "(a', y') \<in> set ((a, y) # memo)"
      then consider "a' = a" "y' = y" | "(a', y') \<in> set memo" by auto
      then show "a' < b \<and> b \<le> y' \<and> y' < fresh s1 \<and> media_at s1 y' = media_at s1 a'"
      proof cases
        case 1
        with a b_y s1 below show ?thesis by simp
      next
        case 2
        with Cons.prems(4) have old: "a' < b" "b \<le> y'" "y' < fresh s" "media_at s y' = media_at s a'"
          by (auto simp: memo_ok_def)
        then have "y' \<noteq> y" by (simp add: y_def)
        with old s1 below show ?thesis by (simp add: y_def)
      qed
    qed
    have ih: "copied b s1 as s0 ys0"
    proof (rule Cons.IH [OF rec as _ memo1])
      show "b \<le> fresh s1" using b_y s1 by simp
    qed
    have "b \<le> (y # ys0) ! i \<and> (y # ys0) ! i < fresh s0 \<and>
          media_at s0 ((y # ys0) ! i) = media_at s ((a # as) ! i)"
      if "i < length (a # as)" for i
    proof (cases i)
      case 0
      with b_y ih s1 show ?thesis by (simp add: copied_def)
    next
      case (Suc j)
      with that have j: "j < length as" by simp
      with as have "as ! j < b" by simp
      then have "media_at s1 (as ! j) = media_at s (as ! j)" by (rule below)
      with Suc j ih show ?thesis by (simp add: copied_def)
    qed
    moreover have "media_at s0 x = media_at s x" if "x < fresh s" for x
    proof -
      from that have "x \<noteq> y" "x < fresh s1" by (simp_all add: y_def s1)
      with ih s1 show ?thesis by (simp add: copied_def)
    qed
    moreover have "fresh s \<le> fresh s0" using ih s1 by (simp add: copied_def y_def)
    ultimately show ?thesis using ih res s1 by (simp add: copied_def)
  qed
qed

lemma content_copied:
  assumes c: "content s c = (y, s1)"
    and refs: "\<forall>r \<in> set (list_at s (o_l c)). r < fresh s"
  shows "y = fresh s"
    and "agree_below (fresh s) s s1"
    and "\<forall>r \<in> set (list_at s1 y). fresh s \<le> r"
    and "map (media_at s1) (list_at s1 y) = map (media_at s) (list_at s (o_l c))"
proof -
  define s0 where "s0 = s\<lparr>list_at := (list_at s)(fresh s := []), fresh := Suc (fresh s)\<rparr>"
  define xs where "xs = list_at s (o_l c)"
  obtain ys memo s' where rec: "deepcopy_items s0 [] xs = (ys, memo, s')"
    by (cases "deepcopy_items s0 [] xs") auto
  with c have res: "y = fresh s" "s1 = s'\<lparr>list_at := (list_at s')(fresh s := ys)\<rparr>"
    by (auto simp: content_def Let_def s0_def xs_def)
  have cp: "copied (fresh s) s0 xs s' ys"
  proof (rule deepcopy_items_copied [OF rec])
    show "\<forall>a \<in> set xs. a < fresh s" using refs by (simp add: xs_def)
    show "fresh s \<le> fresh s0" by (simp add: s0_def)
    show "memo_ok (fresh s) s0 []" by (simp add: memo_ok_def)
  qed
  have s0: "media_at s0 = media_at s" "fresh s0 = Suc (fresh s)"
    "\<And>a. a \<noteq> fresh s \<Longrightarrow> list_at s0 a = list_at s a"
    by (simp_all add: s0_def)
  show "y = fresh s" by (rule res)
  show "agree_below (fresh s) s s1"
    using cp s0 res by (simp add: agree_below_def copied_def)
  have nth: "fresh s \<le> ys ! i \<and> media_at s' (ys ! i) = media_at s (xs ! i)" if "i < length xs" for i
    using cp s0 that by (simp add: copied_def)
  have len: "length ys = length xs" using cp by (simp add: copied_def)
  show "\<forall>r \<in> set (list_at s1 y). fresh s \<le> r"
    using nth len res by (auto simp: in_set_conv_nth)
  show "map (media_at s1) (list_at s1 y) = map (media_at s) (list_at s (o_l c))"
    using nth len res by (simp add: list_eq_iff_nth_eq xs_def)
qed

lemma mutate_agree_below:
  assumes "\<forall>mu \<in> set mus. created_since b mu" and "agree_below b s0 s"
  shows "agree_below b s0 (mutate s mus)"
  using assms
proof (induction mus arbitrary: s)
  case Nil
  then show ?case by simp
next
  case (Cons mu mus)
  from Cons.prems have "created_since b mu" by simp
  with Cons.prems(2) have "agree_below b s0 (mutate1 s mu)"
    by (cases mu) (auto simp: agree_below_def)
  with Cons show ?case by simp
qed

text \<open>
  Iteration, in contrast, hands out the stored objects themselves: a change made to an
  object reached by iterating shows in the next snapshot.
\<close>

lemma iteration_shares_objects:
  "iter_coll ex_store ex_coll_obj = [1, 2] \<and>
   map (media_at (snd (content (mutate1 ex_store (MediaAssign 1 m)) ex_coll_obj)))
     (list_at (snd (content (mutate1 ex_store (MediaAssign 1 m)) ex_coll_obj))
        (fst (content (mutate1 ex_store (MediaAssign 1 m)) ex_coll_obj))) =
     [m, ex_media ''R/G2/b2'' ''EP2'' ''Show'']"
  by (simp add: iter_coll_def content_def ex_store_def ex_coll_obj_def Let_def)

section \<open>The claims\<close>

subsection \<open>C1: \<^verbatim>\<open>scan\<close> classifies every child of the root\<close>

text \<open>
  Claim C1. A call of \<^verbatim>\<open>scan\<close> returns a result exactly when the root can be listed and
  every child of it can be classified, and then the result holds one entry per child, in
  the order of the listing, each being what \<open>classify\<close> gives for that child: a
  \<^verbatim>\<open>Media\<close> built from the one grandchild folder when the listing of the child has exactly
  one entry, a \<^verbatim>\<open>Coll\<close> built from the child directory itself otherwise.
\<close>

theorem scan_classifies_each_child:
  "scan env rootPath = Inr result \<longleftrightarrow>
     (\<exists>children. listdir env rootPath = Inr children \<and>
        list_all2 (\<lambda>child e. classify env rootPath child = Inr e) children result)"
proof (cases "listdir env rootPath")
  case (Inl e)
  then show ?thesis by (simp add: scan_def)
next
  case (Inr ds)
  then show ?thesis by (simp add: scan_def scan_loop_Inr_iff)
qed

text \<open>
  On the example root \<open>R\<close>: \<open>G1\<close> has one item and becomes a \<^verbatim>\<open>Media\<close>, \<open>G2\<close> has two
  and becomes a \<^verbatim>\<open>Coll\<close>.
\<close>

theorem scan_classifies_each_child_witness:
  "list_all2 (\<lambda>child e. classify ex_env ''R'' child = Inr e) [''G1'', ''G2'']
     [Item (ex_media ''R/G1/a1'' ''EP1'' ''EP1''),
      Group \<lparr>c_path = ''R/G2'',
             c_l = [ex_media ''R/G2/b1'' ''EP1'' ''Show'', ex_media ''R/G2/b2'' ''EP2'' ''Show''],
             c_name = JStr ''Show''\<rparr>]"
  using scan_classifies_each_child [THEN iffD1, OF ex_scan(1)] ex_listdir(1)
  by simp

subsection \<open>C2: title and membership in a collection\<close>

text \<open>
  Claim C2. For an item folder whose descriptor is read and decoded to a dictionary
  that holds a part title (the string under \<^verbatim>\<open>page_data\<close>, \<^verbatim>\<open>part\<close>) and a collection
  title (the string under \<^verbatim>\<open>title\<close>), construction succeeds, \<^verbatim>\<open>title\<close> returns the part
  title, and \<^verbatim>\<open>is_in_any_coll()\<close> returns \<^verbatim>\<open>False\<close> exactly when the two titles are
  equal.
\<close>

theorem title_and_is_in_any_coll:
  assumes "read_text env (path_join env path ''entry.json'') = Inr txt"
    and "loads env txt = Inr (JObj items)"
    and "map_of items ''page_data'' = Some (JObj page_data)"
    and "map_of page_data ''part'' = Some (JStr part)"
    and "map_of items ''title'' = Some (JStr ct)"
  shows "\<exists>m. Media env path = Inr m \<and> title m = Inr (JStr part) \<and>
           coll_name m = Inr (JStr ct) \<and>
           is_in_any_coll m = Inr (part \<noteq> ct) \<and>
           (is_in_any_coll m = Inr False \<longleftrightarrow> part = ct)"
  using assms
  by (simp add: Media_decoded title_def coll_name_def is_in_any_coll_def subscript_def)

theorem title_and_is_in_any_coll_witness:
  "(\<exists>m. Media ex_env ''R/G1/a1'' = Inr m \<and> title m = Inr (JStr ''EP1'') \<and>
        is_in_any_coll m = Inr False) \<and>
   (\<exists>m. Media ex_env ''R/G2/b1'' = Inr m \<and> title m = Inr (JStr ''EP1'') \<and>
        is_in_any_coll m = Inr True)"
proof -
  have pd: "map_of [(''part'', JStr ''EP1'')] ''part'' = Some (JStr ''EP1'')"
    by simp
  have a1: "map_of [(''title'', JStr ''EP1''), (''cover'', JStr ''http://cover''),
                    (''page_data'', JObj [(''part'', JStr ''EP1'')])] ''page_data'' =
            Some (JObj [(''part'', JStr ''EP1'')])"
    and a2: "map_of [(''title'', JStr ''EP1''), (''cover'', JStr ''http://cover''),
                    (''page_data'', JObj [(''part'', JStr ''EP1'')])] ''title'' =
            Some (JStr ''EP1'')"
    and b1: "map_of [(''title'', JStr ''Show''), (''cover'', JStr ''http://cover''),
                    (''page_data'', JObj [(''part'', JStr ''EP1'')])] ''page_data'' =
            Some (JObj [(''part'', JStr ''EP1'')])"
    and b2: "map_of [(''title'', JStr ''Show''), (''cover'', JStr ''http://cover''),
                    (''page_data'', JObj [(''part'', JStr ''EP1'')])] ''title'' =
            Some (JStr ''Show'')"
    by simp_all
  from title_and_is_in_any_coll
         [OF ex_read_join(1) ex_loads(1) [unfolded descriptor_def] a1 pd a2]
       title_and_is_in_any_coll
         [OF ex_read_join(2) ex_loads(2) [unfolded descriptor_def] b1 pd b2]
  show ?thesis by auto
qed

subsection \<open>C3: a group of two or more items is a collection\<close>

text \<open>
  Claim C3. Let the group directory at position \<open>i\<close> of the root hold \<open>N \<ge> 2\<close> item
  folders, each of which constructs (to \<open>item n\<close>), the first with a collection title,
  and let every other child of the root be classified without an exception. Then
  \<^verbatim>\<open>scan\<close> on the root returns a catalogue with one entry per child whose entry at
  position \<open>i\<close> is a \<^verbatim>\<open>Coll\<close>: the one that \<^verbatim>\<open>Coll\<close> builds from the group directory, of
  length \<open>N\<close>, with the first item's collection title as its name and with the items in
  enumeration order.
\<close>

theorem scan_group_is_collection:
  assumes "listdir env root = Inr children"
    and "i < length children"
    and "listdir env (path_join env root (children ! i)) = Inr names"
    and "2 \<le> length names"
    and "\<forall>n \<in> set names.
           Media env (path_join env (path_join env root (children ! i)) n) = Inr (item n)"
    and "coll_name (item (names ! 0)) = Inr ct"
    and "\<forall>j<length children. j \<noteq> i \<longrightarrow> (\<exists>e. classify env root (children ! j) = Inr e)"
  shows "\<exists>result k. scan env root = Inr result \<and> length result = length children \<and>
           result ! i = Group k \<and>
           Coll env (path_join env root (children ! i)) = Inr k \<and>
           len k = length names \<and> name k = ct \<and> c_l k = map item names"
proof -
  let ?g = "path_join env root (children ! i)"
  let ?k = "\<lparr>c_path = ?g, c_l = map item names, c_name = ct\<rparr>"
  let ?result = "map (\<lambda>child. projr (classify env root child)) children"
  from assms(4) have ne: "names \<noteq> []" and not1: "length names \<noteq> 1" by auto
  have coll: "Coll env ?g = Inr ?k"
    using assms(3) ne assms(5,6) by (rule Coll_well_formed)
  have cls: "classify env root (children ! i) = Inr (Group ?k)"
    using classify_group [OF assms(3) not1] coll by simp
  have each: "classify env root (children ! j) = Inr (?result ! j)" if "j < length children" for j
  proof (cases "j = i")
    case True
    with cls that show ?thesis by simp
  next
    case False
    with assms(7) that obtain e where "classify env root (children ! j) = Inr e" by blast
    with that show ?thesis by simp
  qed
  then have "list_all2 (\<lambda>child e. classify env root child = Inr e) children ?result"
    by (simp add: list_all2_conv_all_nth)
  with assms(1) have scanned: "scan env root = Inr ?result"
    by (simp add: scan_def scan_loop_Inr_iff)
  have at_i: "?result ! i = Group ?k"
    using each [OF assms(2)] cls by simp
  have "scan env root = Inr ?result \<and> length ?result = length children \<and>
        ?result ! i = Group ?k \<and> Coll env ?g = Inr ?k \<and>
        len ?k = length names \<and> name ?k = ct \<and> c_l ?k = map item names"
    using scanned at_i coll by (simp add: len_def name_def)
  then show ?thesis by blast
qed

text \<open>
  On the example root \<open>R\<close>, whose other child \<open>G1\<close> is a single item: the scan returns
  two entries and the second is the collection of \<open>G2\<close>.
\<close>

theorem scan_group_is_collection_witness:
  "\<exists>result k. scan ex_env ''R'' = Inr result \<and> length result = 2 \<and> result ! 1 = Group k \<and>
       Coll ex_env ''R/G2'' = Inr k \<and> len k = 2 \<and> name k = JStr ''Show'' \<and>
       c_l k = [ex_media ''R/G2/b1'' ''EP1'' ''Show'', ex_media ''R/G2/b2'' ''EP2'' ''Show'']"
proof -
  have others: "\<forall>j<length [''G1'', ''G2'']. j \<noteq> 1 \<longrightarrow>
      (\<exists>e. classify ex_env ''R'' ([''G1'', ''G2''] ! j) = Inr e)"
  proof (intro allI impI)
    fix j :: nat
    assume "j < length [''G1'', ''G2'']" and "j \<noteq> 1"
    then have "j = 0" by simp
    then show "\<exists>e. classify ex_env ''R'' ([''G1'', ''G2''] ! j) = Inr e"
      using ex_Media(1) by (simp add: classify_def ex_listdir ex_join)
  qed
  have items: "\<forall>n \<in> set [''b1'', ''b2''].
      Media ex_env (path_join ex_env (path_join ex_env ''R'' ([''G1'', ''G2''] ! 1)) n) =
        Inr (ex_media (''R/G2/'' @ n) (if n = ''b1'' then ''EP1'' else ''EP2'') ''Show'')"
    using ex_Media(2,3) by (simp add: ex_join)
  have group: "listdir ex_env (path_join ex_env ''R'' ([''G1'', ''G2''] ! 1)) = Inr [''b1'', ''b2'']"
    by (simp add: ex_listdir ex_join)
  have first: "coll_name (ex_media (''R/G2/'' @ [''b1'', ''b2''] ! 0)
      (if [''b1'', ''b2''] ! 0 = ''b1'' then ''EP1'' else ''EP2'') ''Show'') = Inr (JStr ''Show'')"
    by (rule ex_coll_name)
  from scan_group_is_collection [OF ex_listdir(1) _ group _ items first others]
  show ?thesis by (auto simp: ex_join)
qed

subsection \<open>C4: the outcomes of constructing a \<^verbatim>\<open>Media\<close>\<close>

text \<open>
  Claim C4, amended. Constructing a \<^verbatim>\<open>Media\<close> fails with the exception of opening or
  reading the descriptor when that fails (\<^verbatim>\<open>FileNotFoundError\<close> for a missing file), and
  with the exception of the decoder when the content is not valid JSON; in every other
  case, whatever keys the decoded value holds, construction succeeds.
\<close>

theorem media_construction_outcomes:
  "(read_text env (path_join env path ''entry.json'') = Inl e \<longrightarrow> Media env path = Inl e) \<and>
   (read_text env (path_join env path ''entry.json'') = Inr txt \<and> loads env txt = Inl e \<longrightarrow>
      Media env path = Inl e) \<and>
   (read_text env (path_join env path ''entry.json'') = Inr txt \<and> loads env txt = Inr entry \<longrightarrow>
      Media env path =
        Inr \<lparr>m_path = path, m_video = path_join env path video_rel,
             m_audio = path_join env path audio_rel, m_entry = entry\<rparr>)"
  by (simp add: Media_def)

theorem media_construction_outcomes_witness:
  "Media ex_env ''Q/H2/y1'' = Inl FileNotFoundError \<and>
   Media ex_env ''Q/H1/x1'' = Inl JSONDecodeError \<and>
   Media ex_env ''R/G1/a1'' =
     Inr \<lparr>m_path = ''R/G1/a1'', m_video = ''R/G1/a1/'' @ video_rel,
          m_audio = ''R/G1/a1/'' @ audio_rel, m_entry = descriptor ''EP1'' ''EP1''\<rparr>"
  using media_construction_outcomes [of ex_env "''Q/H2/y1''" FileNotFoundError]
    media_construction_outcomes [of ex_env "''Q/H1/x1''" JSONDecodeError "''not json''"]
    media_construction_outcomes [of ex_env "''R/G1/a1''" _ "''doc_a1''" "descriptor ''EP1'' ''EP1''"]
  by (simp add: ex_read_join ex_loads) (simp add: ex_join)

text \<open>
  The claim as first stated also lets construction fail when the decoded descriptor
  lacks the required keys. The descriptor in \<open>N\<close> is the empty JSON object: none of the
  three keys is there, and construction succeeds.
\<close>

theorem media_without_keys_counterexample:
  "read_text ex_env (path_join ex_env ''N'' ''entry.json'') = Inr ''{}'' \<and>
   loads ex_env ''{}'' = Inr (JObj []) \<and>
   subscript (JObj []) ''page_data'' = Inl (KeyError ''page_data'') \<and>
   subscript (JObj []) ''title'' = Inl (KeyError ''title'') \<and>
   subscript (JObj []) ''cover'' = Inl (KeyError ''cover'') \<and>
   Media ex_env ''N'' =
     Inr \<lparr>m_path = ''N'', m_video = ''N/'' @ video_rel, m_audio = ''N/'' @ audio_rel,
          m_entry = JObj []\<rparr>"
  by (simp add: Media_def subscript_def ex_read_join ex_loads) (simp add: ex_join)

subsection \<open>C5: a missing descriptor aborts the scan\<close>

text \<open>
  Claim C5, amended. When the descriptor of an item folder under the root is missing,
  \<^verbatim>\<open>scan\<close> raises and returns no catalogue. The exception is the one of the first step
  that fails in enumeration order: it is \<^verbatim>\<open>FileNotFoundError\<close> when every group before
  the item's group is classified and every item before it in its group constructs.
\<close>

theorem scan_aborts_on_missing_descriptor:
  assumes "listdir env root = Inr children"
    and "i < length children"
    and "listdir env (path_join env root (children ! i)) = Inr names"
    and "k < length names"
    and "read_text env
           (path_join env (path_join env (path_join env root (children ! i)) (names ! k))
              ''entry.json'') = Inl FileNotFoundError"
  shows "(\<exists>e. scan env root = Inl e) \<and>
         ((\<forall>j<i. \<exists>x. classify env root (children ! j) = Inr x) \<and>
          (\<forall>j<k. \<exists>m. Media env
             (path_join env (path_join env root (children ! i)) (names ! j)) = Inr m)
          \<longrightarrow> scan env root = Inl FileNotFoundError)"
proof -
  let ?g = "path_join env root (children ! i)"
  have fails: "Media env (path_join env ?g (names ! k)) = Inl FileNotFoundError"
    using assms(5) by (rule Media_read_fails)
  from classify_item_fails(1) [OF assms(3,4) fails]
  obtain e' where "classify env root (children ! i) = Inl e'" by blast
  from scan_child_fails [OF assms(1,2) this] have abort: "\<exists>e. scan env root = Inl e" .
  have "scan env root = Inl FileNotFoundError"
    if groups: "\<forall>j<i. \<exists>x. classify env root (children ! j) = Inr x"
      and items: "\<forall>j<k. \<exists>m. Media env (path_join env ?g (names ! j)) = Inr m"
  proof -
    have "classify env root (children ! i) = Inl FileNotFoundError"
      using assms(3,4) fails items by (rule classify_item_fails(2))
    with assms(1,2) groups show ?thesis
      by (auto simp: scan_def scan_loop_Inl_iff)
  qed
  with abort show ?thesis by blast
qed

theorem scan_aborts_on_missing_descriptor_witness:
  "scan ex_env ''P'' = Inl FileNotFoundError"
  using scan_aborts_on_missing_descriptor [of ex_env "''P''" "[''K1'']" 0 "[''z1'', ''z2'']" 1]
    ex_Media(4)
  by (simp add: ex_listdir ex_join ex_read)

text \<open>
  The claim as first stated promises \<^verbatim>\<open>FileNotFoundError\<close> for every such root. In the
  example root \<open>Q\<close> the descriptor of \<open>H2/y1\<close> is missing, but the descriptor of \<open>H1/x1\<close>,
  which is visited first, is not JSON: the scan raises the decoder's exception.
\<close>

theorem scan_other_error_first_counterexample:
  "listdir ex_env ''Q'' = Inr [''H1'', ''H2''] \<and>
   listdir ex_env ''Q/H2'' = Inr [''y1''] \<and>
   read_text ex_env (path_join ex_env ''Q/H2/y1'' ''entry.json'') = Inl FileNotFoundError \<and>
   scan ex_env ''Q'' = Inl JSONDecodeError \<and>
   scan ex_env ''Q'' \<noteq> Inl FileNotFoundError"
  by (simp add: ex_scan(2) ex_listdir ex_read_join)

subsection \<open>C6: the content snapshot is a copy\<close>

text \<open>
  Claim C6. Let a collection's list object and its items exist in the store, and let
  \<^verbatim>\<open>content\<close> return a snapshot. The snapshot and all its items are objects created by
  the call, and the snapshot holds the states of the stored items in stored order.
  Whatever is then done to objects created by or after the call (so to the snapshot and
  to the items in it), iteration over the collection yields the same objects with the
  same states as before, and a later call of \<^verbatim>\<open>content\<close> gives the same states again.
\<close>

theorem content_is_a_copy:
  assumes "o_l c < fresh s"
    and "\<forall>r \<in> set (list_at s (o_l c)). r < fresh s"
    and "content s c = (snap, s1)"
    and "\<forall>mu \<in> set mus. created_since (fresh s) mu"
    and "content (mutate s1 mus) c = (snap', s3)"
  shows "fresh s \<le> snap \<and> (\<forall>r \<in> set (list_at s1 snap). fresh s \<le> r) \<and>
         map (media_at s1) (list_at s1 snap) = map (media_at s) (list_at s (o_l c)) \<and>
         iter_coll (mutate s1 mus) c = iter_coll s c \<and>
         map (media_at (mutate s1 mus)) (iter_coll (mutate s1 mus) c) =
           map (media_at s) (iter_coll s c) \<and>
         map (media_at s3) (list_at s3 snap') = map (media_at s) (list_at s (o_l c))"
proof -
  let ?s2 = "mutate s1 mus"
  note first = content_copied [OF assms(3,2)]
  have agree: "agree_below (fresh s) s ?s2"
    using assms(4) first(2) by (rule mutate_agree_below)
  have same_list: "list_at ?s2 (o_l c) = list_at s (o_l c)"
    using agree assms(1) by (simp add: agree_below_def)
  have same_items: "map (media_at ?s2) (list_at s (o_l c)) = map (media_at s) (list_at s (o_l c))"
    using agree assms(2) by (simp add: agree_below_def)
  have "\<forall>r \<in> set (list_at ?s2 (o_l c)). r < fresh ?s2"
    using agree assms(2) same_list by (fastforce simp: agree_below_def)
  from content_copied(4) [OF assms(5) this]
  have "map (media_at s3) (list_at s3 snap') = map (media_at s) (list_at s (o_l c))"
    using same_list same_items by simp
  with first same_list same_items show ?thesis
    by (simp add: iter_coll_def)
qed

theorem content_is_a_copy_witness:
  "iter_coll (mutate (snd (content ex_store ex_coll_obj)) ex_mus) ex_coll_obj = [1, 2] \<and>
   map (media_at (snd (content (mutate (snd (content ex_store ex_coll_obj)) ex_mus) ex_coll_obj)))
     (list_at (snd (content (mutate (snd (content ex_store ex_coll_obj)) ex_mus) ex_coll_obj))
        (fst (content (mutate (snd (content ex_store ex_coll_obj)) ex_mus) ex_coll_obj))) =
     [ex_media ''R/G2/b1'' ''EP1'' ''Show'', ex_media ''R/G2/b2'' ''EP2'' ''Show'']"
  using content_is_a_copy [of ex_coll_obj ex_store "fst (content ex_store ex_coll_obj)"
      "snd (content ex_store ex_coll_obj)" ex_mus
      "fst (content (mutate (snd (content ex_store ex_coll_obj)) ex_mus) ex_coll_obj)"
      "snd (content (mutate (snd (content ex_store ex_coll_obj)) ex_mus) ex_coll_obj)"]
  by (simp add: ex_store_def ex_coll_obj_def ex_mus_def iter_coll_def)

subsection \<open>C7: the media paths are joins and nothing else is read\<close>

text \<open>
  Claim C7. A constructed \<^verbatim>\<open>Media\<close> has as video and audio path the join of the folder
  path with the fixed strings \<open>video_rel\<close> and \<open>audio_rel\<close> (the quality directory
  \<^verbatim>\<open>16\<close>, a backslash and the file name). Construction depends on the environment only
  through the join, the read of the descriptor and the decoder: two environments that
  agree on these give the same outcome, whatever else they hold, so the media files are
  never looked at.
\<close>

theorem media_paths_are_joins:
  "(Media env p = Inr m \<longrightarrow>
      video m = path_join env p video_rel \<and> audio m = path_join env p audio_rel) \<and>
   (path_join env' = path_join env \<and> loads env' = loads env \<and>
    read_text env' (path_join env p ''entry.json'') = read_text env (path_join env p ''entry.json'')
      \<longrightarrow> Media env' p = Media env p)"
  by (auto simp: Media_def video_def audio_def split: sum.splits)

theorem media_paths_are_joins_witness:
  "video (ex_media ''R/G1/a1'' ''EP1'' ''EP1'') = ''R/G1/a1/'' @ video_rel \<and>
   audio (ex_media ''R/G1/a1'' ''EP1'' ''EP1'') = ''R/G1/a1/'' @ audio_rel \<and>
   read_text ex_env_bare (''R/G1/a1/'' @ video_rel) = Inl FileNotFoundError \<and>
   Media ex_env_bare ''R/G1/a1'' = Inr (ex_media ''R/G1/a1'' ''EP1'' ''EP1'')"
proof -
  have same: "path_join ex_env_bare = path_join ex_env \<and> loads ex_env_bare = loads ex_env \<and>
      read_text ex_env_bare (path_join ex_env ''R/G1/a1'' ''entry.json'') =
      read_text ex_env (path_join ex_env ''R/G1/a1'' ''entry.json'')"
    by (simp add: ex_read_join) (simp add: ex_env_bare_def ex_env_def)
  have none: "read_text ex_env_bare (''R/G1/a1/'' @ video_rel) = Inl FileNotFoundError"
    by (simp add: ex_env_bare_def video_rel_def)
  from media_paths_are_joins [of ex_env "''R/G1/a1''" "ex_media ''R/G1/a1'' ''EP1'' ''EP1''"
      ex_env_bare] ex_Media(1) same none
  show ?thesis by (simp add: ex_join)
qed

subsection \<open>C8: a root that cannot be listed\<close>

text \<open>
  Claim C8. When listing the root raises (\<^verbatim>\<open>FileNotFoundError\<close> for a path that does
  not exist, \<^verbatim>\<open>NotADirectoryError\<close> for one that is not a directory), \<^verbatim>\<open>scan\<close> raises
  that exception and returns nothing.
\<close>

theorem scan_root_listing_fails:
  "listdir env rootPath = Inl e \<Longrightarrow> scan env rootPath = Inl e"
  by (simp add: scan_def)

theorem scan_root_listing_fails_witness:
  "scan ex_env ''missing'' = Inl FileNotFoundError"
  using scan_root_listing_fails [OF ex_listdir(10)] .

subsection \<open>C9: a collection of nothing\<close>

text \<open>
  Claim C9. Constructing a \<^verbatim>\<open>Coll\<close> from a folder whose listing is empty raises
  \<^verbatim>\<open>IndexError\<close> where the name is taken from the first item; no object is returned.
\<close>

theorem coll_of_empty_folder:
  "listdir env path = Inr [] \<Longrightarrow> Coll env path = Inl IndexError"
  by (simp add: Coll_def)

theorem coll_of_empty_folder_witness:
  "Coll ex_env ''E'' = Inl IndexError"
  using coll_of_empty_folder [OF ex_listdir(9)] .

subsection \<open>C10: a missing key shows at the accessor\<close>

text \<open>
  Claim C10. When the descriptor is read and decoded to a dictionary, construction
  succeeds whatever keys are there. A missing \<^verbatim>\<open>page_data\<close>, a missing \<^verbatim>\<open>part\<close> inside
  it, a missing \<^verbatim>\<open>title\<close> or a missing \<^verbatim>\<open>cover\<close> raises \<^verbatim>\<open>KeyError\<close> at the call of
  \<^verbatim>\<open>title\<close>, \<^verbatim>\<open>coll_name\<close>, \<^verbatim>\<open>cover_url\<close> or \<^verbatim>\<open>is_in_any_coll\<close> that needs it.
\<close>

theorem missing_key_surfaces_at_accessor:
  assumes "read_text env (path_join env path ''entry.json'') = Inr txt"
    and "loads env txt = Inr (JObj items)"
  shows "\<exists>m. Media env path = Inr m \<and>
           (map_of items ''page_data'' = None \<longrightarrow>
              title m = Inl (KeyError ''page_data'') \<and>
              is_in_any_coll m = Inl (KeyError ''page_data'')) \<and>
           (\<forall>page_data. map_of items ''page_data'' = Some (JObj page_data) \<and>
              map_of page_data ''part'' = None \<longrightarrow>
              title m = Inl (KeyError ''part'') \<and> is_in_any_coll m = Inl (KeyError ''part'')) \<and>
           (map_of items ''title'' = None \<longrightarrow>
              coll_name m = Inl (KeyError ''title'') \<and> (\<exists>e. is_in_any_coll m = Inl e)) \<and>
           (map_of items ''cover'' = None \<longrightarrow> cover_url m = Inl (KeyError ''cover''))"
  using assms
  by (auto simp: Media_decoded title_def coll_name_def cover_url_def is_in_any_coll_def
      subscript_def split: sum.splits option.splits)

theorem missing_key_surfaces_at_accessor_witness:
  "(\<exists>m. Media ex_env ''N'' = Inr m \<and> title m = Inl (KeyError ''page_data'') \<and>
        is_in_any_coll m = Inl (KeyError ''page_data'') \<and>
        coll_name m = Inl (KeyError ''title'') \<and> cover_url m = Inl (KeyError ''cover'')) \<and>
   (\<exists>m. Media ex_env ''N2'' = Inr m \<and> title m = Inl (KeyError ''part'') \<and>
        is_in_any_coll m = Inl (KeyError ''part''))"
  using missing_key_surfaces_at_accessor [OF ex_read_join(6) ex_loads(4)]
    missing_key_surfaces_at_accessor [OF ex_read_join(7) ex_loads(5)]
  by auto

end
